theory Spec2Isabelle
  imports Main "HOL-Library.Word"
begin

section \<open>Data model of \<open>src/main.js\<close>\<close>

text \<open>
  A Node \<open>Buffer\<close> is a list of bytes. The scorer consumes an \<open>Int16Array\<close>: a list of
  16-bit words, read as two's complement (\<open>sint\<close>).
\<close>

type_synonym bytes = "8 word list"
type_synonym pcm = "16 word list"

text \<open>
  The events of \<open>node-vad\<close> (\<open>VAD.Event\<close>). The program compares the result of
  \<open>vad.processAudio\<close> with \<open>VAD.Event.SILENCE\<close> only (line 111); the three other
  members of the library's enumeration are all "not silence" to it.
\<close>

datatype vad_event = ERROR | SILENCE | VOICE | NOISE

text \<open>
  What the program does to the outside, in the order it does it: console output, the
  calls of the two audio collaborators, the hand-over of the recorded audio to
  \<open>saveAudioToFile\<close> (line 134) and the start of the transcription (line 135).
\<close>

datatype effect =
    ConsoleLog string
  | PorcupineProcess pcm
  | VadProcessAudio bytes
  | SaveAudioToFile bytes string
  | ProcessUserSpeech string

text \<open>
  The module-level variables of lines 76 to 78, the internal state of the Porcupine
  instance (opaque: the type parameter), and the log of effects.
\<close>

record 'p world =
  isRecording :: bool
  speechBuffer :: "bytes list"
  audioBuffer :: bytes
  porcupine :: 'p
  trace :: "effect list"

definition init :: "'p \<Rightarrow> 'p world" where
  "init p0 = \<lparr>isRecording = False, speechBuffer = [], audioBuffer = [],
              porcupine = p0, trace = []\<rparr>"

text \<open>
  \<open>porcupine.process\<close> is a collaborator: a function from its own state and a frame to a
  keyword index (\<open>-1\<close> for none) and its next state. \<open>porcupine.frameLength\<close> (line 73) is a
  constant of the library and is the parameter \<open>fl\<close> of the functions below.
\<close>

type_synonym 'p scorer = "'p \<Rightarrow> pcm \<Rightarrow> int \<times> 'p"

section \<open>The functions of the program\<close>

definition console_log :: "string \<Rightarrow> 'p world \<Rightarrow> 'p world" where
  "console_log m w = w\<lparr>trace := trace w @ [ConsoleLog m]\<rparr>"

text \<open>\<open>startUserSpeechRecording\<close>, lines 120 to 124.\<close>

definition startUserSpeechRecording :: "'p world \<Rightarrow> 'p world" where
  "startUserSpeechRecording w =
     console_log ''Recording user speech...'' (w\<lparr>isRecording := True, speechBuffer := []\<rparr>)"

text \<open>
  \<open>saveAudioToFile\<close>, lines 140 to 153: the writer is created and given the audio; the
  outcome of the write arrives later, as an event of its own (\<open>finish\<close>, or an \<open>error\<close>
  for which the program registers no listener).
\<close>

definition saveAudioToFile :: "bytes \<Rightarrow> string \<Rightarrow> 'p world \<Rightarrow> 'p world" where
  "saveAudioToFile audioData filename w = w\<lparr>trace := trace w @ [SaveAudioToFile audioData filename]\<rparr>"

text \<open>\<open>stopUserSpeechRecording\<close>, lines 127 to 137. \<open>Buffer.concat\<close> is \<open>concat\<close>.\<close>

definition stopUserSpeechRecording :: "'p world \<Rightarrow> 'p world" where
  "stopUserSpeechRecording w =
     (let w1 = console_log ''Stopping recording.'' (w\<lparr>isRecording := False\<rparr>);
          audioData = concat (speechBuffer w1)
      in saveAudioToFile audioData ''user_speech.wav'' w1)"

text \<open>
  \<open>Buffer.readInt16LE\<close>: the low byte first. Out of range it throws a \<open>RangeError\<close>,
  which is \<open>None\<close> here.
\<close>

definition readInt16LE :: "bytes \<Rightarrow> nat \<Rightarrow> 16 word option" where
  "readInt16LE buf off =
     (if off + 2 \<le> length buf then Some (word_cat (buf ! (off + 1)) (buf ! off)) else None)"

text \<open>The \<open>for\<close> loop of lines 93 to 96.\<close>

definition pcm_of_frame :: "nat \<Rightarrow> bytes \<Rightarrow> pcm option" where
  "pcm_of_frame fl frame = those (map (\<lambda>i. readInt16LE frame (i * 2)) [0..<fl])"

text \<open>
  The \<open>while\<close> loop of lines 89 to 105. It need not end (with a frame length of 0 and a
  scorer that never detects it does not), so it is a partial function: \<open>None\<close> is a
  handler that does not return normally.
\<close>

partial_function (option) wake_loop :: "nat \<Rightarrow> 'p scorer \<Rightarrow> 'p world \<Rightarrow> 'p world option" where
  "wake_loop fl proc w =
     (if fl * 2 \<le> length (audioBuffer w) then
        (let frame = take (fl * 2) (audioBuffer w);
             w1 = w\<lparr>audioBuffer := drop (fl * 2) (audioBuffer w)\<rparr>
         in case pcm_of_frame fl frame of
              None \<Rightarrow> None
            | Some pcm \<Rightarrow>
               (let r = proc (porcupine w1) pcm;
                    keywordIndex = fst r;
                    w2 = w1\<lparr>porcupine := snd r, trace := trace w1 @ [PorcupineProcess pcm]\<rparr>
                in if 0 \<le> keywordIndex
                   then Some (startUserSpeechRecording (console_log ''Wake word detected!'' w2))
                   else wake_loop fl proc w2))
      else Some w)"

declare wake_loop.simps [code]

text \<open>The handler of the stream's \<open>data\<close> event, lines 84 to 117.\<close>

definition on_data :: "nat \<Rightarrow> 'p scorer \<Rightarrow> 'p world \<Rightarrow> bytes \<Rightarrow> 'p world option" where
  "on_data fl proc w data =
     (if \<not> isRecording w
      then wake_loop fl proc (w\<lparr>audioBuffer := audioBuffer w @ data\<rparr>)
      else Some (w\<lparr>speechBuffer := speechBuffer w @ [data],
                   trace := trace w @ [VadProcessAudio data]\<rparr>))"

text \<open>
  The callback given to \<open>then\<close>, lines 110 to 115. It runs when the promise of
  \<open>vad.processAudio\<close> is fulfilled, which is after the handler that made the call has
  returned.
\<close>

definition vad_then :: "'p world \<Rightarrow> vad_event \<Rightarrow> 'p world" where
  "vad_then w res =
     (if res = SILENCE
      then stopUserSpeechRecording (console_log ''User stopped speaking.'' w)
      else w)"

text \<open>The listener of the writer's \<open>finish\<close> event, lines 149 to 152, with the callback of line 135.\<close>

definition save_finish :: "'p world \<Rightarrow> 'p world" where
  "save_finish w =
     w\<lparr>trace := trace w @ [ConsoleLog ''Audio saved to user_speech.wav'',
                           ProcessUserSpeech ''user_speech.wav'']\<rparr>"

text \<open>
  What can happen to the program: a chunk arrives from the microphone; a classification
  is delivered; the classifier fails (the promise is rejected); the writer of the file
  finishes; writing the file fails (the writer emits \<open>error\<close>; it may have emitted
  \<open>finish\<close> before, which is then the event \<open>SaveFinished\<close> followed by \<open>SaveFailed\<close>).
\<close>

datatype event =
    Data bytes
  | VadResolved vad_event
  | VadRejected
  | SaveFinished
  | SaveFailed

text \<open>
  What an event leaves behind. The program goes on with the variables a handler has set;
  or the process ends, with the variables as they are; or the handler never returns.
  The program gives the promise of line 110 no rejection handler and the writer of line
  141 no \<open>error\<close> listener: for a rejected promise and for a failed write no code of the
  program runs, and Node ends the process on the unhandled rejection or error. No later
  event is handled then.
\<close>

datatype 'p outcome = Running "'p world" | Exited "'p world" | Stuck

fun step :: "nat \<Rightarrow> 'p scorer \<Rightarrow> 'p world \<Rightarrow> event \<Rightarrow> 'p outcome" where
  "step fl proc w (Data d) =
     (case on_data fl proc w d of None \<Rightarrow> Stuck | Some w' \<Rightarrow> Running w')"
| "step fl proc w (VadResolved res) = Running (vad_then w res)"
| "step fl proc w VadRejected = Exited w"
| "step fl proc w SaveFinished = Running (save_finish w)"
| "step fl proc w SaveFailed = Exited w"

fun run :: "nat \<Rightarrow> 'p scorer \<Rightarrow> 'p world \<Rightarrow> event list \<Rightarrow> 'p outcome" where
  "run fl proc w [] = Running w"
| "run fl proc w (e # es) =
     (case step fl proc w e of
        Running w' \<Rightarrow> run fl proc w' es
      | Exited w' \<Rightarrow> Exited w'
      | Stuck \<Rightarrow> Stuck)"

section \<open>Reading the effects\<close>

text \<open>
  The bytes of a frame: each sample low byte first, the inverse of \<open>readInt16LE\<close>.
\<close>

definition sample_bytes :: "16 word \<Rightarrow> bytes" where
  "sample_bytes s = [ucast s, ucast (drop_bit 8 s)]"

definition frame_bytes :: "pcm \<Rightarrow> bytes" where
  "frame_bytes f = concat (map sample_bytes f)"

text \<open>The frames given to the scorer, and the audio buffers given to finalization.\<close>

fun scanned :: "effect list \<Rightarrow> pcm list" where
  "scanned [] = []"
| "scanned (PorcupineProcess f # tr) = f # scanned tr"
| "scanned (_ # tr) = scanned tr"

fun saves :: "effect list \<Rightarrow> bytes list" where
  "saves [] = []"
| "saves (SaveAudioToFile a _ # tr) = a # saves tr"
| "saves (_ # tr) = saves tr"

text \<open>
  The mode a sequence of effects leaves the session in, when it starts in mode \<open>m\<close>
  (\<open>True\<close> is RECORDING): the wake event is the message of line 101, the return to
  LISTENING the message of line 129. \<open>None\<close> when a wake event, or a call of the
  scorer, happens in RECORDING.
\<close>

fun mode_after :: "bool \<Rightarrow> effect list \<Rightarrow> bool option" where
  "mode_after m [] = Some m"
| "mode_after m (ConsoleLog s # tr) =
     (if s = ''Wake word detected!'' then (if m then None else mode_after True tr)
      else if s = ''Stopping recording.'' then mode_after False tr
      else mode_after m tr)"
| "mode_after m (PorcupineProcess f # tr) = (if m then None else mode_after m tr)"
| "mode_after m (_ # tr) = mode_after m tr"


text \<open>
  What one run of the loop of lines 89 to 105 does, as a relation between the world before
  and after: the frames it gave to the scorer, each of \<open>fl\<close> samples, are the front of
  the residual buffer and what is left is its rest; then either nothing was detected
  (the mode and the speech buffer are as before, less than a frame is left), or the two
  messages of a wake event end the run, after at least one frame, the mode is RECORDING
  and the speech buffer is empty.
\<close>

definition wake_tail :: "effect list" where
  "wake_tail = [ConsoleLog ''Wake word detected!'', ConsoleLog ''Recording user speech...'']"

definition loop_post :: "nat \<Rightarrow> 'p scorer \<Rightarrow> 'p world \<Rightarrow> 'p world \<Rightarrow> bool" where
  "loop_post fl proc w w' \<longleftrightarrow>
     (\<exists>frames tl.
        trace w' = trace w @ map PorcupineProcess frames @ tl \<and>
        (\<forall>f \<in> set frames. length f = fl) \<and>
        concat (map frame_bytes frames) @ audioBuffer w' = audioBuffer w \<and>
        (tl = [] \<and> isRecording w' = isRecording w \<and> speechBuffer w' = speechBuffer w \<and>
           length (audioBuffer w') < fl * 2
         \<or> tl = wake_tail \<and> frames \<noteq> [] \<and> isRecording w' \<and> speechBuffer w' = [] \<and>
           (\<exists>p f. 0 \<le> fst (proc p f))))"

text \<open>The variables when a run has stopped, whether the program goes on or the process has ended.\<close>

fun last_world :: "'p outcome \<Rightarrow> 'p world option" where
  "last_world (Running w) = Some w"
| "last_world (Exited w) = Some w"
| "last_world Stuck = None"

text \<open>Two scorers to run the program with: one never detects, one detects in every frame.\<close>

definition proc_never :: "unit scorer" where "proc_never p f = (-1, p)"

definition proc_always :: "unit scorer" where "proc_always p f = (0, p)"

text \<open>
  The silence events among the effects (the message of line 112) and the wake events
  (the message of line 101), the events after which
  the program goes on and that are not a classification as SILENCE, and the chunks among
  the events.
\<close>

fun silence_events :: "effect list \<Rightarrow> nat" where
  "silence_events [] = 0"
| "silence_events (ConsoleLog s # tr) =
     (if s = ''User stopped speaking.'' then Suc (silence_events tr) else silence_events tr)"
| "silence_events (_ # tr) = silence_events tr"

fun wake_events :: "effect list \<Rightarrow> nat" where
  "wake_events [] = 0"
| "wake_events (ConsoleLog s # tr) =
     (if s = ''Wake word detected!'' then Suc (wake_events tr) else wake_events tr)"
| "wake_events (_ # tr) = wake_events tr"

fun quiet :: "event \<Rightarrow> bool" where
  "quiet (Data d) = True"
| "quiet (VadResolved res) = (res \<noteq> SILENCE)"
| "quiet SaveFinished = True"
| "quiet VadRejected = False"
| "quiet SaveFailed = False"

fun chunks_of :: "event list \<Rightarrow> bytes list" where
  "chunks_of [] = []"
| "chunks_of (Data d # es) = d # chunks_of es"
| "chunks_of (_ # es) = chunks_of es"

section \<open>Frames\<close>

lemma sample_bytes_cat: "sample_bytes (word_cat (b :: 8 word) (a :: 8 word)) = [a, b]"
  unfolding sample_bytes_def
  apply simp
  apply (rule conjI)
   apply (rule bit_word_eqI)
   apply (simp add: bit_simps)
  apply (rule bit_word_eqI)
  apply (auto simp add: bit_simps)
  done

lemma readInt16LE_shift: "readInt16LE (a # b # xs) (Suc i * 2) = readInt16LE xs (i * 2)"
  by (simp add: readInt16LE_def)

lemma pcm_of_frame_Suc:
  "pcm_of_frame (Suc fl) (a # b # xs) = map_option ((#) (word_cat b a)) (pcm_of_frame fl xs)"
  unfolding pcm_of_frame_def map_upt_Suc
  apply (simp only: those.simps list.map readInt16LE_shift)
  apply (simp add: readInt16LE_def)
  done

lemma pcm_of_frame_Some:
  "length frame = fl * 2 \<Longrightarrow>
   \<exists>f. pcm_of_frame fl frame = Some f \<and> length f = fl \<and> frame_bytes f = frame"
proof (induction fl arbitrary: frame)
  case 0
  then show ?case by (simp add: pcm_of_frame_def frame_bytes_def)
next
  case (Suc fl)
  then obtain a b xs where fr: "frame = a # b # xs" and len: "length xs = fl * 2"
    by (cases frame; cases "tl frame") auto
  from Suc.IH [OF len] obtain f where
    f: "pcm_of_frame fl xs = Some f" "length f = fl" "frame_bytes f = xs" by blast
  show ?case
    using f by (simp add: fr pcm_of_frame_Suc frame_bytes_def sample_bytes_cat)
qed

section \<open>The wake loop\<close>

lemma loop_post_done: "length (audioBuffer w) < fl * 2 \<Longrightarrow> loop_post fl proc w w"
  unfolding loop_post_def
  by (rule exI [of _ "[]"], rule exI [of _ "[]"]) simp

lemma loop_post_wake:
  assumes "fl * 2 \<le> length (audioBuffer w)"
    and "pcm_of_frame fl (take (fl * 2) (audioBuffer w)) = Some f"
    and "0 \<le> fst (proc (porcupine w) f)"
  shows "loop_post fl proc w
     (startUserSpeechRecording (console_log ''Wake word detected!''
        (w\<lparr>audioBuffer := drop (fl * 2) (audioBuffer w), porcupine := snd (proc (porcupine w) f),
           trace := trace w @ [PorcupineProcess f]\<rparr>)))"
proof -
  from assms(1) have "length (take (fl * 2) (audioBuffer w)) = fl * 2" by simp
  from pcm_of_frame_Some [OF this] assms(2)
  have f: "length f = fl" "frame_bytes f = take (fl * 2) (audioBuffer w)" by auto
  show ?thesis
    unfolding loop_post_def
    apply (rule exI [of _ "[f]"], rule exI [of _ wake_tail])
    using f assms(3)
    apply (simp add: startUserSpeechRecording_def console_log_def wake_tail_def)
    apply blast
    done
qed

lemma loop_post_step:
  assumes "fl * 2 \<le> length (audioBuffer w)"
    and "pcm_of_frame fl (take (fl * 2) (audioBuffer w)) = Some f"
    and "loop_post fl proc
      (w\<lparr>audioBuffer := drop (fl * 2) (audioBuffer w), porcupine := snd (proc (porcupine w) f),
           trace := trace w @ [PorcupineProcess f]\<rparr>) w'"
  shows "loop_post fl proc w w'"
proof -
  from assms(1) have "length (take (fl * 2) (audioBuffer w)) = fl * 2" by simp
  from pcm_of_frame_Some [OF this] assms(2)
  have f: "length f = fl" "frame_bytes f = take (fl * 2) (audioBuffer w)" by auto
  from assms(3) obtain frames tl where
    h: "trace w' = (trace w @ [PorcupineProcess f]) @ map PorcupineProcess frames @ tl"
      "\<forall>f \<in> set frames. length f = fl"
      "concat (map frame_bytes frames) @ audioBuffer w' = drop (fl * 2) (audioBuffer w)"
      "tl = [] \<and> isRecording w' = isRecording w \<and> speechBuffer w' = speechBuffer w \<and>
           length (audioBuffer w') < fl * 2
         \<or> tl = wake_tail \<and> isRecording w' \<and> speechBuffer w' = [] \<and>
           (\<exists>p f. 0 \<le> fst (proc p f))"
    unfolding loop_post_def by auto
  show ?thesis
    unfolding loop_post_def
    apply (rule exI [of _ "f # frames"], rule exI [of _ tl])
    using f h by simp
qed

lemma wake_loop_post:
  assumes "wake_loop fl proc w = Some w'"
  shows "loop_post fl proc w w'"
proof (rule wake_loop.raw_induct [where P = loop_post, OF _ assms])
  fix wl :: "nat \<Rightarrow> 'a scorer \<Rightarrow> 'a world \<Rightarrow> 'a world option" and fl proc w w'
  assume IH: "\<And>fl proc w y. wl fl proc w = Some y \<Longrightarrow> loop_post fl proc w y"
  assume eq: "(if fl * 2 \<le> length (audioBuffer w)
      then let frame = take (fl * 2) (audioBuffer w);
               w1 = w\<lparr>audioBuffer := drop (fl * 2) (audioBuffer w)\<rparr>
           in case pcm_of_frame fl frame of None \<Rightarrow> None
              | Some pcm \<Rightarrow>
                  let r = proc (porcupine w1) pcm; keywordIndex = fst r;
                      w2 = w1\<lparr>porcupine := snd r, trace := trace w1 @ [PorcupineProcess pcm]\<rparr>
                  in if 0 \<le> keywordIndex
                     then Some (startUserSpeechRecording (console_log ''Wake word detected!'' w2))
                     else wl fl proc w2
      else Some w) = Some w'"
  show "loop_post fl proc w w'"
  proof (cases "fl * 2 \<le> length (audioBuffer w)")
    case False
    with eq show ?thesis by (simp add: loop_post_done)
  next
    case True
    with eq obtain f where f: "pcm_of_frame fl (take (fl * 2) (audioBuffer w)) = Some f"
      by (auto simp: Let_def split: option.splits)
    show ?thesis
    proof (cases "0 \<le> fst (proc (porcupine w) f)")
      case True
      with eq f \<open>fl * 2 \<le> length (audioBuffer w)\<close> show ?thesis
        using loop_post_wake [of fl w f proc] by (simp add: Let_def)
    next
      case False
      with eq f \<open>fl * 2 \<le> length (audioBuffer w)\<close>
      have "wl fl proc (w\<lparr>audioBuffer := drop (fl * 2) (audioBuffer w),
               porcupine := snd (proc (porcupine w) f),
               trace := trace w @ [PorcupineProcess f]\<rparr>) = Some w'"
        by (simp add: Let_def)
      from IH [OF this] show ?thesis
        using loop_post_step [OF \<open>fl * 2 \<le> length (audioBuffer w)\<close> f] by blast
    qed
  qed
qed

lemma wake_loop_total:
  assumes "0 < fl"
  shows "\<exists>w'. wake_loop fl proc w = Some w'"
proof (induction "length (audioBuffer w)" arbitrary: w rule: less_induct)
  case less
  show ?case
  proof (cases "fl * 2 \<le> length (audioBuffer w)")
    case False
    then show ?thesis by (subst wake_loop.simps) simp
  next
    case True
    then have "length (take (fl * 2) (audioBuffer w)) = fl * 2" by simp
    from pcm_of_frame_Some [OF this]
    obtain f where f: "pcm_of_frame fl (take (fl * 2) (audioBuffer w)) = Some f" by blast
    let ?w2 = "w\<lparr>audioBuffer := drop (fl * 2) (audioBuffer w),
               porcupine := snd (proc (porcupine w) f),
               trace := trace w @ [PorcupineProcess f]\<rparr>"
    have "length (audioBuffer ?w2) < length (audioBuffer w)"
      using True assms by simp
    from less [OF this] obtain w' where "wake_loop fl proc ?w2 = Some w'" by blast
    then show ?thesis
      using True f by (subst wake_loop.simps) (simp add: Let_def)
  qed
qed

section \<open>Chunks in LISTENING\<close>

lemma length_frame_bytes: "length (frame_bytes f) = 2 * length f"
  by (induction f) (simp_all add: frame_bytes_def sample_bytes_def)

lemma length_concat_frames:
  "\<forall>f \<in> set frames. length f = fl \<Longrightarrow>
   length (concat (map frame_bytes frames)) = length frames * (fl * 2)"
  by (induction frames) (simp_all add: length_frame_bytes)

lemma scanned_append: "scanned (a @ b) = scanned a @ scanned b"
  by (induction a rule: scanned.induct) simp_all

lemma scanned_map: "scanned (map PorcupineProcess frames) = frames"
  by (induction frames) simp_all

lemma saves_append: "saves (a @ b) = saves a @ saves b"
  by (induction a rule: saves.induct) simp_all




lemma frames_count:
  assumes "0 < m" and "r < m" and "n * m + r = K * (m::nat)"
  shows "n = K \<and> r = 0"
proof -
  have "r = (n * m + r) mod m" using assms(2) by simp
  also have "\<dots> = (K * m) mod m" by (simp only: assms(3))
  finally have r: "r = 0" by simp
  with assms(1,3) show ?thesis by simp
qed

lemma on_data_listening:
  assumes "\<not> isRecording w" and "on_data fl proc w d = Some w'"
  shows "loop_post fl proc (w\<lparr>audioBuffer := audioBuffer w @ d\<rparr>) w'"
  using assms by (simp add: on_data_def wake_loop_post)

lemma on_data_total: "0 < fl \<Longrightarrow> \<exists>w'. on_data fl proc w d = Some w'"
  using wake_loop_total [of fl proc] by (simp add: on_data_def)

lemma run_chunks_quiet:
  assumes "0 < fl" and "\<forall>p f. fst (proc p f) < 0"
  shows "\<not> isRecording w \<Longrightarrow> length (audioBuffer w) < fl * 2 \<Longrightarrow>
    \<exists>w' frames. run fl proc w (map Data chunks) = Running w' \<and> \<not> isRecording w' \<and>
      length (audioBuffer w') < fl * 2 \<and>
      trace w' = trace w @ map PorcupineProcess frames \<and>
      (\<forall>f \<in> set frames. length f = fl) \<and>
      concat (map frame_bytes frames) @ audioBuffer w' = audioBuffer w @ concat chunks"
proof (induction chunks arbitrary: w)
  case Nil
  show ?case
    apply (rule exI [of _ w], rule exI [of _ "[]"])
    using Nil by simp
next
  case (Cons c chunks)
  from on_data_total [OF assms(1)] obtain w1 where w1: "on_data fl proc w c = Some w1" by blast
  from on_data_listening [OF Cons.prems(1) w1] assms(2)
  obtain fs1 where 1: "trace w1 = trace w @ map PorcupineProcess fs1"
    "\<forall>f \<in> set fs1. length f = fl"
    "concat (map frame_bytes fs1) @ audioBuffer w1 = audioBuffer w @ c"
    "\<not> isRecording w1" "length (audioBuffer w1) < fl * 2"
    unfolding loop_post_def using Cons.prems(1) by (auto simp: not_le [symmetric])
  from Cons.IH [OF 1(4) 1(5)] obtain w' fs2 where 2:
    "run fl proc w1 (map Data chunks) = Running w'" "\<not> isRecording w'"
    "length (audioBuffer w') < fl * 2"
    "trace w' = trace w1 @ map PorcupineProcess fs2"
    "\<forall>f \<in> set fs2. length f = fl"
    "concat (map frame_bytes fs2) @ audioBuffer w' = audioBuffer w1 @ concat chunks"
    by blast
  have "concat (map frame_bytes (fs1 @ fs2)) @ audioBuffer w'
      = concat (map frame_bytes fs1) @ (concat (map frame_bytes fs2) @ audioBuffer w')"
    by simp
  also have "\<dots> = (concat (map frame_bytes fs1) @ audioBuffer w1) @ concat chunks"
    by (simp only: 2(6) append_assoc)
  also have "\<dots> = audioBuffer w @ concat (c # chunks)"
    by (simp only: 1(3)) simp
  finally have "concat (map frame_bytes (fs1 @ fs2)) @ audioBuffer w' = audioBuffer w @ concat (c # chunks)" .
  then show ?case
    apply -
    apply (rule exI [of _ w'], rule exI [of _ "fs1 @ fs2"])
    using w1 1 2 by auto
qed

section \<open>Chunks in RECORDING\<close>

lemma stop_fields:
  "isRecording (stopUserSpeechRecording w) = False"
  "speechBuffer (stopUserSpeechRecording w) = speechBuffer w"
  "audioBuffer (stopUserSpeechRecording w) = audioBuffer w"
  "porcupine (stopUserSpeechRecording w) = porcupine w"
  "trace (stopUserSpeechRecording w) =
     trace w @ [ConsoleLog ''Stopping recording.'',
                SaveAudioToFile (concat (speechBuffer w)) ''user_speech.wav'']"
  by (simp_all add: stopUserSpeechRecording_def saveAudioToFile_def console_log_def)

lemma vad_then_silence:
  "isRecording (vad_then w SILENCE) = False"
  "speechBuffer (vad_then w SILENCE) = speechBuffer w"
  "audioBuffer (vad_then w SILENCE) = audioBuffer w"
  "porcupine (vad_then w SILENCE) = porcupine w"
  "trace (vad_then w SILENCE) =
     trace w @ [ConsoleLog ''User stopped speaking.'', ConsoleLog ''Stopping recording.'',
                SaveAudioToFile (concat (speechBuffer w)) ''user_speech.wav'']"
  by (simp_all add: vad_then_def stop_fields console_log_def)

lemma vad_then_other: "res \<noteq> SILENCE \<Longrightarrow> vad_then w res = w"
  by (simp add: vad_then_def)

lemma on_data_recording:
  "isRecording w \<Longrightarrow>
   on_data fl proc w d =
     Some (w\<lparr>speechBuffer := speechBuffer w @ [d], trace := trace w @ [VadProcessAudio d]\<rparr>)"
  by (simp add: on_data_def)





section \<open>The wake event\<close>




section \<open>The residual buffer and the mode\<close>

lemma step_recording:
  assumes "isRecording w"
  shows "\<exists>w'. last_world (step fl proc w e) = Some w' \<and> audioBuffer w' = audioBuffer w \<and>
           scanned (trace w') = scanned (trace w)"
proof (cases e)
  case (Data d)
  then show ?thesis using assms by (simp add: on_data_recording scanned_append)
next
  case (VadResolved res)
  then show ?thesis
    by (cases "res = SILENCE") (simp_all add: vad_then_silence vad_then_other scanned_append)
next
  case VadRejected
  then show ?thesis by simp
next
  case SaveFinished
  then show ?thesis by (simp add: save_finish_def scanned_append)
next
  case SaveFailed
  then show ?thesis by simp
qed

lemma run_recording:
  "\<forall>k < length es. \<exists>wk. run fl proc w (take k es) = Running wk \<and> isRecording wk \<Longrightarrow>
   \<exists>w'. last_world (run fl proc w es) = Some w' \<and> audioBuffer w' = audioBuffer w \<and>
        scanned (trace w') = scanned (trace w)"
proof (induction es arbitrary: w)
  case Nil
  show ?case by simp
next
  case (Cons e es)
  from Cons.prems have "\<exists>wk. run fl proc w (take 0 (e # es)) = Running wk \<and> isRecording wk"
    by blast
  then have rec: "isRecording w" by simp
  from step_recording [OF rec] obtain w1 where
    w1: "last_world (step fl proc w e) = Some w1" "audioBuffer w1 = audioBuffer w"
        "scanned (trace w1) = scanned (trace w)"
    by blast
  show ?case
  proof (cases "step fl proc w e")
    case (Running v)
    with w1(1) have v: "v = w1" by simp
    have "\<forall>k < length es. \<exists>wk. run fl proc w1 (take k es) = Running wk \<and> isRecording wk"
    proof (intro allI impI)
      fix k assume "k < length es"
      then have "Suc k < length (e # es)" by simp
      with Cons.prems obtain wk where
        "run fl proc w (take (Suc k) (e # es)) = Running wk \<and> isRecording wk" by blast
      then show "\<exists>wk. run fl proc w1 (take k es) = Running wk \<and> isRecording wk"
        using Running v by simp
    qed
    from Cons.IH [OF this] obtain w' where
      "last_world (run fl proc w1 es) = Some w'" "audioBuffer w' = audioBuffer w1"
      "scanned (trace w') = scanned (trace w1)"
      by blast
    then show ?thesis using w1 Running v by simp
  next
    case (Exited v)
    with w1 show ?thesis by simp
  next
    case Stuck
    with w1(1) show ?thesis by simp
  qed
qed

lemma mode_after_append:
  "mode_after m (a @ b) = (case mode_after m a of None \<Rightarrow> None | Some m' \<Rightarrow> mode_after m' b)"
  by (induction m a rule: mode_after.induct) simp_all

lemma mode_after_scans: "mode_after False (map PorcupineProcess frames) = Some False"
  by (induction frames) simp_all

lemma step_mode:
  assumes "last_world (step fl proc w e) = Some w'"
  shows "\<exists>tr. trace w' = trace w @ tr \<and> mode_after (isRecording w) tr = Some (isRecording w')"
proof (cases e)
  case (Data d)
  show ?thesis
  proof (cases "isRecording w")
    case True
    with assms Data show ?thesis by (auto simp: on_data_recording)
  next
    case False
    with assms Data have "loop_post fl proc (w\<lparr>audioBuffer := audioBuffer w @ d\<rparr>) w'"
      by (auto simp: on_data_listening split: option.splits)
    then obtain frames tl where
      h: "trace w' = trace w @ map PorcupineProcess frames @ tl"
         "tl = [] \<and> isRecording w' = isRecording w \<or> tl = wake_tail \<and> isRecording w'"
      unfolding loop_post_def by auto
    have "mode_after False (map PorcupineProcess frames @ tl) = Some (isRecording w')"
      using h(2) False by (auto simp: mode_after_append mode_after_scans wake_tail_def)
    with h(1) False show ?thesis by auto
  qed
next
  case (VadResolved res)
  with assms show ?thesis
    by (cases "res = SILENCE") (auto simp: vad_then_silence vad_then_other)
next
  case VadRejected
  with assms show ?thesis by auto
next
  case SaveFinished
  with assms show ?thesis by (auto simp: save_finish_def)
next
  case SaveFailed
  with assms show ?thesis by auto
qed

lemma run_mode:
  "last_world (run fl proc w es) = Some w' \<Longrightarrow>
   \<exists>tr. trace w' = trace w @ tr \<and> mode_after (isRecording w) tr = Some (isRecording w')"
proof (induction es arbitrary: w)
  case Nil
  then show ?case by simp
next
  case (Cons e es)
  show ?case
  proof (cases "step fl proc w e")
    case (Running w1)
    with Cons.prems have r: "last_world (run fl proc w1 es) = Some w'" by simp
    from Running have "last_world (step fl proc w e) = Some w1" by simp
    from step_mode [OF this] obtain t1 where
      t1: "trace w1 = trace w @ t1" "mode_after (isRecording w) t1 = Some (isRecording w1)"
      by blast
    from Cons.IH [OF r] obtain t2 where
      t2: "trace w' = trace w1 @ t2" "mode_after (isRecording w1) t2 = Some (isRecording w')"
      by blast
    have "trace w' = trace w @ (t1 @ t2)" using t1(1) t2(1) by simp
    moreover have "mode_after (isRecording w) (t1 @ t2) = Some (isRecording w')"
      using t1(2) t2(2) by (simp add: mode_after_append)
    ultimately show ?thesis by blast
  next
    case (Exited v)
    with Cons.prems have "last_world (step fl proc w e) = Some w'" by simp
    from step_mode [OF this] show ?thesis .
  next
    case Stuck
    with Cons.prems show ?thesis by simp
  qed
qed

lemma always_run: "run 1 proc_always (init ())
     [Data [1, 2, 3, 4, 5, 6], Data [7, 8], VadResolved VOICE, Data [9, 10], VadResolved SILENCE,
      Data [11]]
   = Running \<lparr>isRecording = True, speechBuffer = [], audioBuffer = [5, 6, 11], porcupine = (),
       trace = [PorcupineProcess [513], ConsoleLog ''Wake word detected!'',
         ConsoleLog ''Recording user speech...'', VadProcessAudio [7, 8],
         VadProcessAudio [9, 10], ConsoleLog ''User stopped speaking.'',
         ConsoleLog ''Stopping recording.'', SaveAudioToFile [7, 8, 9, 10] ''user_speech.wav'',
         PorcupineProcess [1027], ConsoleLog ''Wake word detected!'',
         ConsoleLog ''Recording user speech...'']\<rparr>"
  by code_simp

section \<open>The speech buffer\<close>

lemma step_listening_speech:
  assumes "\<not> isRecording w" and "step fl proc w e = Running w'"
  shows "if isRecording w' then speechBuffer w' = [] else speechBuffer w' = speechBuffer w"
proof (cases e)
  case (Data d)
  with assms have "loop_post fl proc (w\<lparr>audioBuffer := audioBuffer w @ d\<rparr>) w'"
    by (auto simp: on_data_listening split: option.splits)
  with assms(1) show ?thesis unfolding loop_post_def by auto
next
  case (VadResolved res)
  with assms show ?thesis
    by (cases "res = SILENCE") (auto simp: vad_then_silence vad_then_other)
next
  case VadRejected
  with assms show ?thesis by auto
next
  case SaveFinished
  with assms show ?thesis by (auto simp: save_finish_def)
next
  case SaveFailed
  with assms show ?thesis by auto
qed

section \<open>Events other than a classification as SILENCE\<close>

lemma silence_events_append: "silence_events (a @ b) = silence_events a + silence_events b"
  by (induction a rule: silence_events.induct) simp_all

lemma step_quiet:
  assumes "isRecording w" and "quiet e"
  shows "\<exists>w'. step fl proc w e = Running w' \<and> isRecording w' \<and>
           speechBuffer w' = speechBuffer w @ chunks_of [e] \<and>
           saves (trace w') = saves (trace w) \<and>
           silence_events (trace w') = silence_events (trace w)"
proof (cases e)
  case (Data d)
  then show ?thesis
    using assms(1) by (simp add: on_data_recording saves_append silence_events_append)
next
  case (VadResolved res)
  then show ?thesis using assms by (simp add: vad_then_other)
next
  case VadRejected
  then show ?thesis using assms by simp
next
  case SaveFinished
  then show ?thesis
    using assms by (simp add: save_finish_def saves_append silence_events_append)
next
  case SaveFailed
  then show ?thesis using assms by simp
qed

lemma chunks_of_Cons: "chunks_of (e # es) = chunks_of [e] @ chunks_of es"
  by (cases e) simp_all

lemma run_quiet:
  "isRecording w \<Longrightarrow> \<forall>e \<in> set es. quiet e \<Longrightarrow>
   \<exists>w'. run fl proc w es = Running w' \<and> isRecording w' \<and>
        speechBuffer w' = speechBuffer w @ chunks_of es \<and>
        saves (trace w') = saves (trace w) \<and>
        silence_events (trace w') = silence_events (trace w)"
proof (induction es arbitrary: w)
  case Nil
  then show ?case by simp
next
  case (Cons e es)
  from Cons.prems have q: "quiet e" and qs: "\<forall>e \<in> set es. quiet e" by simp_all
  from step_quiet [OF Cons.prems(1) q] obtain w1 where
    w1: "step fl proc w e = Running w1" "isRecording w1"
        "speechBuffer w1 = speechBuffer w @ chunks_of [e]"
        "saves (trace w1) = saves (trace w)"
        "silence_events (trace w1) = silence_events (trace w)"
    by blast
  from Cons.IH [OF w1(2) qs] obtain w' where
    w': "run fl proc w1 es = Running w'" "isRecording w'"
        "speechBuffer w' = speechBuffer w1 @ chunks_of es"
        "saves (trace w') = saves (trace w1)"
        "silence_events (trace w') = silence_events (trace w1)"
    by blast
  have "speechBuffer w' = speechBuffer w @ chunks_of (e # es)"
    using w1(3) w'(3) by (simp add: chunks_of_Cons [of e es])
  with w1 w' show ?case by simp
qed

section \<open>A chunk stays in the speech buffer until the next wake event\<close>

lemma wake_events_append: "wake_events (a @ b) = wake_events a + wake_events b"
  by (induction a rule: wake_events.induct) simp_all

lemma wake_events_scans: "wake_events (map PorcupineProcess frames) = 0"
  by (induction frames) simp_all

lemma step_speech_grows:
  assumes "last_world (step fl proc w e) = Some w'"
  shows "wake_events (trace w) \<le> wake_events (trace w') \<and>
         (wake_events (trace w') = wake_events (trace w) \<longrightarrow>
            (\<exists>post. speechBuffer w' = speechBuffer w @ post))"
proof (cases e)
  case (Data d)
  show ?thesis
  proof (cases "isRecording w")
    case True
    with assms Data show ?thesis by (auto simp: on_data_recording wake_events_append)
  next
    case False
    with assms Data have "loop_post fl proc (w\<lparr>audioBuffer := audioBuffer w @ d\<rparr>) w'"
      by (auto simp: on_data_listening split: option.splits)
    then obtain frames tl where
      h: "trace w' = trace w @ map PorcupineProcess frames @ tl"
         "tl = [] \<and> speechBuffer w' = speechBuffer w \<or> tl = wake_tail"
      unfolding loop_post_def by auto
    from h(2) show ?thesis
      by (auto simp: h(1) wake_events_append wake_events_scans wake_tail_def)
  qed
next
  case (VadResolved res)
  with assms show ?thesis
    by (cases "res = SILENCE") (auto simp: vad_then_silence vad_then_other wake_events_append)
next
  case VadRejected
  with assms show ?thesis by auto
next
  case SaveFinished
  with assms show ?thesis by (auto simp: save_finish_def wake_events_append)
next
  case SaveFailed
  with assms show ?thesis by auto
qed

lemma run_speech_grows:
  "last_world (run fl proc w es) = Some w' \<Longrightarrow>
   wake_events (trace w) \<le> wake_events (trace w') \<and>
   (wake_events (trace w') = wake_events (trace w) \<longrightarrow>
      (\<exists>post. speechBuffer w' = speechBuffer w @ post))"
proof (induction es arbitrary: w)
  case Nil
  then show ?case by simp
next
  case (Cons e es)
  show ?case
  proof (cases "step fl proc w e")
    case (Running w1)
    with Cons.prems have r: "last_world (run fl proc w1 es) = Some w'" by simp
    from Running have "last_world (step fl proc w e) = Some w1" by simp
    from step_speech_grows [OF this] have
      1: "wake_events (trace w) \<le> wake_events (trace w1)"
         "wake_events (trace w1) = wake_events (trace w) \<longrightarrow>
            (\<exists>post. speechBuffer w1 = speechBuffer w @ post)"
      by simp_all
    from Cons.IH [OF r] have
      2: "wake_events (trace w1) \<le> wake_events (trace w')"
         "wake_events (trace w') = wake_events (trace w1) \<longrightarrow>
            (\<exists>post. speechBuffer w' = speechBuffer w1 @ post)"
      by simp_all
    have "\<exists>post. speechBuffer w' = speechBuffer w @ post"
      if eq: "wake_events (trace w') = wake_events (trace w)"
    proof -
      from eq 1(1) 2(1) have "wake_events (trace w1) = wake_events (trace w)"
        "wake_events (trace w') = wake_events (trace w1)" by simp_all
      with 1(2) 2(2) obtain p1 p2 where
        "speechBuffer w1 = speechBuffer w @ p1" "speechBuffer w' = speechBuffer w1 @ p2"
        by blast
      then have "speechBuffer w' = speechBuffer w @ (p1 @ p2)" by simp
      then show ?thesis by blast
    qed
    with 1(1) 2(1) show ?thesis by simp
  next
    case (Exited v)
    with Cons.prems have "last_world (step fl proc w e) = Some w'" by simp
    from step_speech_grows [OF this] show ?thesis .
  next
    case Stuck
    with Cons.prems show ?thesis by simp
  qed
qed

text \<open>
  A chunk that arrived in RECORDING is in the speech buffer, behind what was there, for as
  long as no wake event happens; a classification as SILENCE that is delivered by then
  finalizes it with the rest.
\<close>

lemma chunk_finalized_unless_wake:
  assumes "isRecording w"
    and "last_world (run fl proc w (Data d # es)) = Some w2"
    and "wake_events (trace w2) = wake_events (trace w)"
  shows "\<exists>post. speechBuffer w2 = speechBuffer w @ [d] @ post \<and>
           saves (trace (vad_then w2 SILENCE)) =
             saves (trace w2) @ [concat (speechBuffer w) @ d @ concat post]"
proof -
  let ?w1 = "w\<lparr>speechBuffer := speechBuffer w @ [d], trace := trace w @ [VadProcessAudio d]\<rparr>"
  from assms(1,2) have r: "last_world (run fl proc ?w1 es) = Some w2"
    by (simp add: on_data_recording)
  have "wake_events (trace w2) = wake_events (trace ?w1)"
    using assms(3) by (simp add: wake_events_append)
  with run_speech_grows [OF r] obtain post where
    "speechBuffer w2 = speechBuffer ?w1 @ post" by blast
  then have "speechBuffer w2 = speechBuffer w @ [d] @ post" by simp
  then show ?thesis by (auto simp: vad_then_silence saves_append)
qed

section \<open>A chunk in LISTENING: what is scanned\<close>

lemma on_data_listening_scan:
  assumes "\<not> isRecording w" and "on_data fl proc w c = Some w2"
  shows "\<exists>frames. scanned (trace w2) = scanned (trace w) @ frames \<and>
           (\<forall>f \<in> set frames. length f = fl) \<and>
           concat (map frame_bytes frames) @ audioBuffer w2 = audioBuffer w @ c \<and>
           (isRecording w2 \<or> length (audioBuffer w2) < fl * 2) \<and>
           (fl * 2 \<le> length (audioBuffer w) \<longrightarrow>
              frames \<noteq> [] \<and> frame_bytes (hd frames) = take (fl * 2) (audioBuffer w))"
proof -
  from on_data_listening [OF assms] obtain frames tl where
    h: "trace w2 = trace w @ map PorcupineProcess frames @ tl"
       "\<forall>f \<in> set frames. length f = fl"
       "concat (map frame_bytes frames) @ audioBuffer w2 = audioBuffer w @ c"
       "tl = [] \<and> length (audioBuffer w2) < fl * 2 \<or>
        tl = wake_tail \<and> frames \<noteq> [] \<and> isRecording w2"
    unfolding loop_post_def by auto
  have tl: "scanned tl = []" using h(4) by (auto simp: wake_tail_def)
  have sc: "scanned (trace w2) = scanned (trace w) @ frames"
    using h(1) tl by (simp add: scanned_append scanned_map)
  have pr: "isRecording w2 \<or> length (audioBuffer w2) < fl * 2" using h(4) by blast
  have first: "frames \<noteq> [] \<and> frame_bytes (hd frames) = take (fl * 2) (audioBuffer w)"
    if big: "fl * 2 \<le> length (audioBuffer w)"
  proof -
    have ne: "frames \<noteq> []"
    proof
      assume "frames = []"
      with h(3,4) have "audioBuffer w2 = audioBuffer w @ c" "length (audioBuffer w2) < fl * 2"
        by auto
      with big show False by simp
    qed
    then obtain f fs where fs: "frames = f # fs" by (cases frames) auto
    with h(2) have "length (frame_bytes f) = fl * 2" by (simp add: length_frame_bytes)
    moreover have "frame_bytes f @ (concat (map frame_bytes fs) @ audioBuffer w2) = audioBuffer w @ c"
      using h(3) fs by simp
    ultimately have "frame_bytes f = take (fl * 2) (audioBuffer w @ c)"
      by (metis append_eq_conv_conj)
    with big fs ne show ?thesis by simp
  qed
  from sc h(2,3) pr first show ?thesis by blast
qed

lemma rec_run_prefixes:
  "\<forall>k < length [Data [5, 6], VadResolved VOICE, Data [7, 8], VadResolved SILENCE].
     \<exists>wk. run 1 proc_never
       \<lparr>isRecording = True, speechBuffer = [], audioBuffer = [3, 4], porcupine = (), trace = []\<rparr>
       (take k [Data [5, 6], VadResolved VOICE, Data [7, 8], VadResolved SILENCE]) = Running wk \<and>
       isRecording wk"
  by (simp add: All_less_Suc on_data_def vad_then_def)

lemma rec_run: "run 1 proc_never
    \<lparr>isRecording = True, speechBuffer = [], audioBuffer = [3, 4], porcupine = (), trace = []\<rparr>
    [Data [5, 6], VadResolved VOICE, Data [7, 8], VadResolved SILENCE]
  = Running \<lparr>isRecording = False, speechBuffer = [[5, 6], [7, 8]], audioBuffer = [3, 4],
      porcupine = (),
      trace = [VadProcessAudio [5, 6], VadProcessAudio [7, 8],
        ConsoleLog ''User stopped speaking.'', ConsoleLog ''Stopping recording.'',
        SaveAudioToFile [5, 6, 7, 8] ''user_speech.wav'']\<rparr>"
  by code_simp

lemma wake_again: "step 1 proc_always
    \<lparr>isRecording = False, speechBuffer = [[3, 4], [5, 6]], audioBuffer = [], porcupine = (),
      trace = []\<rparr> (Data [7, 8])
  = Running \<lparr>isRecording = True, speechBuffer = [], audioBuffer = [], porcupine = (),
      trace = [PorcupineProcess [2055], ConsoleLog ''Wake word detected!'',
        ConsoleLog ''Recording user speech...'']\<rparr>"
  by code_simp

lemma no_wake: "step 1 proc_never
    \<lparr>isRecording = False, speechBuffer = [[3, 4], [5, 6]], audioBuffer = [], porcupine = (),
      trace = []\<rparr> (Data [7, 8])
  = Running \<lparr>isRecording = False, speechBuffer = [[3, 4], [5, 6]], audioBuffer = [],
      porcupine = (), trace = [PorcupineProcess [2055]]\<rparr>"
  by code_simp

section \<open>Claims\<close>




text \<open>
  C2 (frame integrity). Let the frame length be positive and the scorer never report a
  detection. Feed the program, from its initial state, any list of chunks whose bytes
  number \<open>K * fl * 2\<close> in total. Every handler returns, the scorer has been given
  exactly \<open>K\<close> frames, each of \<open>fl\<close> samples, and the bytes of these frames, in the
  order they were given, are the bytes of the input.
\<close>

theorem C2_frame_integrity:
  assumes "0 < fl"
    and "length (concat chunks) = K * fl * 2"
    and "\<forall>p f. fst (proc p f) < 0"
  shows "\<exists>w'. run fl proc (init p0) (map Data chunks) = Running w' \<and>
           length (scanned (trace w')) = K \<and>
           (\<forall>f \<in> set (scanned (trace w')). length f = fl) \<and>
           concat (map frame_bytes (scanned (trace w'))) = concat chunks"
proof -
  have "\<not> isRecording (init p0)" "length (audioBuffer (init p0)) < fl * 2"
    using assms(1) by (simp_all add: init_def)
  from run_chunks_quiet [OF assms(1) assms(3) this, of chunks]
  obtain w' frames where r: "run fl proc (init p0) (map Data chunks) = Running w'"
    "length (audioBuffer w') < fl * 2"
    "trace w' = trace (init p0) @ map PorcupineProcess frames"
    "\<forall>f \<in> set frames. length f = fl"
    "concat (map frame_bytes frames) @ audioBuffer w' = audioBuffer (init p0) @ concat chunks"
    by blast
  have sc: "scanned (trace w') = frames"
    using r(3) by (simp add: init_def scanned_map)
  have "length (concat (map frame_bytes frames) @ audioBuffer w') = length (concat chunks)"
    using r(5) by (simp add: init_def)
  then have "length frames * (fl * 2) + length (audioBuffer w') = K * (fl * 2)"
    using assms(2) length_concat_frames [OF r(4)] by simp
  from frames_count [OF _ r(2) this] assms(1)
  have "length frames = K" "audioBuffer w' = []" by simp_all
  with r sc show ?thesis by (simp add: init_def)
qed

theorem C2_frame_integrity_witness:
  "\<exists>w'. run 1 proc_never (init ()) (map Data [[1], [2, 3, 4, 5], [6]]) = Running w' \<and>
           length (scanned (trace w')) = 3 \<and>
           (\<forall>f \<in> set (scanned (trace w')). length f = 1) \<and>
           concat (map frame_bytes (scanned (trace w'))) = concat [[1], [2, 3, 4, 5], [6]]"
  using C2_frame_integrity [of 1 "[[1], [2, 3, 4, 5], [6]]" 3 proc_never "()"]
  by (simp add: proc_never_def)

text \<open>
  C3 (the speech buffer in LISTENING), as the code has it. Finalization sets the mode to
  LISTENING and leaves the speech buffer as it is, however many chunks it holds. The
  buffer is empty when the program starts, and it is emptied by the wake event: a step
  taken in LISTENING either enters RECORDING with an empty buffer or stays in LISTENING
  with the buffer it had.
\<close>

theorem C3_speech_buffer_emptied_at_wake:
  "\<not> isRecording (init p0) \<and> speechBuffer (init p0) = [] \<and>
   \<not> isRecording (vad_then w SILENCE) \<and>
   speechBuffer (vad_then w SILENCE) = speechBuffer w \<and>
   (\<not> isRecording w \<and> step fl proc w e = Running w' \<longrightarrow>
      (if isRecording w' then speechBuffer w' = [] else speechBuffer w' = speechBuffer w))"
  using step_listening_speech [of w fl proc e w']
  by (simp add: vad_then_silence init_def)

theorem C3_speech_buffer_emptied_at_wake_witness:
  "\<not> isRecording (vad_then
      \<lparr>isRecording = True, speechBuffer = [[3, 4], [5, 6]], audioBuffer = [], porcupine = (),
        trace = []\<rparr> SILENCE) \<and>
   speechBuffer (vad_then
      \<lparr>isRecording = True, speechBuffer = [[3, 4], [5, 6]], audioBuffer = [], porcupine = (),
        trace = []\<rparr> SILENCE) = [[3, 4], [5, 6]] \<and>
   step 1 proc_always
      \<lparr>isRecording = False, speechBuffer = [[3, 4], [5, 6]], audioBuffer = [], porcupine = (),
        trace = []\<rparr> (Data [7, 8]) =
     Running \<lparr>isRecording = True, speechBuffer = [], audioBuffer = [], porcupine = (),
        trace = [PorcupineProcess [2055], ConsoleLog ''Wake word detected!'',
          ConsoleLog ''Recording user speech...'']\<rparr> \<and>
   step 1 proc_never
      \<lparr>isRecording = False, speechBuffer = [[3, 4], [5, 6]], audioBuffer = [], porcupine = (),
        trace = []\<rparr> (Data [7, 8]) =
     Running \<lparr>isRecording = False, speechBuffer = [[3, 4], [5, 6]], audioBuffer = [],
        porcupine = (), trace = [PorcupineProcess [2055]]\<rparr>"
  using
    C3_speech_buffer_emptied_at_wake [of "()"
      "\<lparr>isRecording = True, speechBuffer = [[3, 4], [5, 6]], audioBuffer = [], porcupine = (),
        trace = []\<rparr>" 1 proc_always "Data [7, 8]"]
    C3_speech_buffer_emptied_at_wake [of "()"
      "\<lparr>isRecording = False, speechBuffer = [[3, 4], [5, 6]], audioBuffer = [], porcupine = (),
        trace = []\<rparr>" 1 proc_always "Data [7, 8]"
      "\<lparr>isRecording = True, speechBuffer = [], audioBuffer = [], porcupine = (),
        trace = [PorcupineProcess [2055], ConsoleLog ''Wake word detected!'',
          ConsoleLog ''Recording user speech...'']\<rparr>"]
    C3_speech_buffer_emptied_at_wake [of "()"
      "\<lparr>isRecording = False, speechBuffer = [[3, 4], [5, 6]], audioBuffer = [], porcupine = (),
        trace = []\<rparr>" 1 proc_never "Data [7, 8]"
      "\<lparr>isRecording = False, speechBuffer = [[3, 4], [5, 6]], audioBuffer = [],
        porcupine = (), trace = [PorcupineProcess [2055]]\<rparr>"]
    wake_again no_wake
  by simp

text \<open>
  C3 as stated fails. One frame wakes; two chunks are recorded, the second classified
  SILENCE. After finalization the mode is LISTENING and the speech buffer holds the two
  chunks.
\<close>

theorem C3_counterexample:
  "run 1 proc_always (init ())
     [Data [1, 2], Data [3, 4], VadResolved VOICE, Data [5, 6], VadResolved SILENCE] =
     Running \<lparr>isRecording = False, speechBuffer = [[3, 4], [5, 6]], audioBuffer = [],
       porcupine = (),
       trace = [PorcupineProcess [513], ConsoleLog ''Wake word detected!'',
         ConsoleLog ''Recording user speech...'', VadProcessAudio [3, 4],
         VadProcessAudio [5, 6], ConsoleLog ''User stopped speaking.'',
         ConsoleLog ''Stopping recording.'',
         SaveAudioToFile [3, 4, 5, 6] ''user_speech.wav'']\<rparr>"
  by code_simp




text \<open>
  C5 (edge triggering). Whatever the scorer answers, whatever the events and their order:
  when the run stops with all its handlers returned (the program going on, or the process
  ended), the effects of the run, read from the mode the session started in, contain no
  wake event and no call of the scorer at a point where the session is RECORDING, and they
  leave the session in the mode it is in. The session is RECORDING from a wake event to
  the next return to LISTENING (line 128), so between two wake events there is always
  such a return.
\<close>

theorem C5_edge_triggered:
  "last_world (run fl proc w es) = Some w' \<longrightarrow>
   (\<exists>tr. trace w' = trace w @ tr \<and> mode_after (isRecording w) tr = Some (isRecording w'))"
  using run_mode by blast

theorem C5_edge_triggered_witness:
  "run 1 proc_always (init ())
     [Data [1, 2, 3, 4, 5, 6], Data [7, 8], VadResolved VOICE, Data [9, 10], VadResolved SILENCE,
      Data [11]] \<noteq> Stuck \<and>
   mode_after False
     [PorcupineProcess [513], ConsoleLog ''Wake word detected!'',
      ConsoleLog ''Recording user speech...'', VadProcessAudio [7, 8],
      VadProcessAudio [9, 10], ConsoleLog ''User stopped speaking.'',
      ConsoleLog ''Stopping recording.'', SaveAudioToFile [7, 8, 9, 10] ''user_speech.wav'',
      PorcupineProcess [1027], ConsoleLog ''Wake word detected!'',
      ConsoleLog ''Recording user speech...''] = Some True"
  using C5_edge_triggered [of 1 proc_always "init ()" _ _] always_run
  by (simp add: init_def)

text \<open>
  C6 (no debounce). Let the session be RECORDING and let anything happen after which the
  program goes on, except a classification as SILENCE: chunks arrive and classifications
  of any other kind are delivered, in any order. The mode stays RECORDING, the chunks are
  buffered, and there is no silence event and no finalization. The first classification as
  SILENCE then raises the silence event (the message of line 112) and finalizes at once,
  with all the chunks buffered so far.
\<close>

theorem C6_first_silence_finalizes:
  assumes "isRecording w" and "\<forall>e \<in> set es. quiet e"
  shows "\<exists>w1 w2. run fl proc w es = Running w1 \<and> isRecording w1 \<and>
           speechBuffer w1 = speechBuffer w @ chunks_of es \<and>
           saves (trace w1) = saves (trace w) \<and>
           silence_events (trace w1) = silence_events (trace w) \<and>
           step fl proc w1 (VadResolved SILENCE) = Running w2 \<and> \<not> isRecording w2 \<and>
           trace w2 = trace w1 @
             [ConsoleLog ''User stopped speaking.'', ConsoleLog ''Stopping recording.'',
              SaveAudioToFile (concat (speechBuffer w @ chunks_of es)) ''user_speech.wav'']"
proof -
  from run_quiet [OF assms] obtain w1 where
    w1: "run fl proc w es = Running w1" "isRecording w1"
        "speechBuffer w1 = speechBuffer w @ chunks_of es"
        "saves (trace w1) = saves (trace w)"
        "silence_events (trace w1) = silence_events (trace w)"
    by blast
  have "step fl proc w1 (VadResolved SILENCE) = Running (vad_then w1 SILENCE)" by simp
  moreover have "\<not> isRecording (vad_then w1 SILENCE)" by (simp add: vad_then_silence)
  moreover have "trace (vad_then w1 SILENCE) = trace w1 @
             [ConsoleLog ''User stopped speaking.'', ConsoleLog ''Stopping recording.'',
              SaveAudioToFile (concat (speechBuffer w @ chunks_of es)) ''user_speech.wav'']"
    by (simp only: vad_then_silence w1(3))
  ultimately show ?thesis using w1 by blast
qed

theorem C6_first_silence_finalizes_witness:
  "\<exists>w1 w2. run 1 proc_never
             \<lparr>isRecording = True, speechBuffer = [], audioBuffer = [], porcupine = (), trace = []\<rparr>
             [Data [1, 2], VadResolved VOICE, Data [3, 4], VadResolved NOISE, Data [5, 6]]
             = Running w1 \<and> isRecording w1 \<and>
           speechBuffer w1 = [[1, 2], [3, 4], [5, 6]] \<and>
           saves (trace w1) = [] \<and> silence_events (trace w1) = 0 \<and>
           step 1 proc_never w1 (VadResolved SILENCE) = Running w2 \<and> \<not> isRecording w2 \<and>
           trace w2 = trace w1 @
             [ConsoleLog ''User stopped speaking.'', ConsoleLog ''Stopping recording.'',
              SaveAudioToFile [1, 2, 3, 4, 5, 6] ''user_speech.wav'']"
proof -
  let ?w = "\<lparr>isRecording = True, speechBuffer = [], audioBuffer = [], porcupine = (),
              trace = []\<rparr> :: unit world"
  let ?es = "[Data [1, 2], VadResolved VOICE, Data [3, 4], VadResolved NOISE, Data [5, 6]]"
  have 1: "isRecording ?w" by simp
  have 2: "\<forall>e \<in> set ?es. quiet e" by simp
  from C6_first_silence_finalizes [OF 1 2, of 1 proc_never]
  show ?thesis by (simp only: world.simps chunks_of.simps saves.simps silence_events.simps
      append_Nil concat.simps append_Cons append_Nil2)
qed

text \<open>
  C8 (finalization that fails), as the code has it. Finalization with an empty speech
  buffer does not fail: it hands an empty audio buffer to \<open>saveAudioToFile\<close>. Finalization
  sets the mode to LISTENING before the hand-over, and neither outcome of the hand-over
  changes the mode: a failure runs no code of the program (the process ends with the mode
  LISTENING), a success starts the transcription.
\<close>

theorem C8_finalization_sets_listening_first:
  "(speechBuffer w = [] \<longrightarrow>
      saves (trace (stopUserSpeechRecording w)) = saves (trace w) @ [[]]) \<and>
   \<not> isRecording (stopUserSpeechRecording w) \<and>
   step fl proc (stopUserSpeechRecording w) SaveFailed = Exited (stopUserSpeechRecording w) \<and>
   (\<exists>w'. step fl proc (stopUserSpeechRecording w) SaveFinished = Running w' \<and> \<not> isRecording w')"
  by (simp add: stop_fields saves_append save_finish_def)

theorem C8_finalization_sets_listening_first_witness:
  "saves (trace (stopUserSpeechRecording
      \<lparr>isRecording = True, speechBuffer = [], audioBuffer = [], porcupine = (), trace = []\<rparr>))
     = [[]] \<and>
   \<not> isRecording (stopUserSpeechRecording
      \<lparr>isRecording = True, speechBuffer = [], audioBuffer = [], porcupine = (), trace = []\<rparr>)"
  using C8_finalization_sets_listening_first [of
      "\<lparr>isRecording = True, speechBuffer = [], audioBuffer = [], porcupine = (), trace = []\<rparr>"
      1 proc_always]
  by simp

text \<open>
  C8 as stated fails. Two chunks are recorded before the first classification arrives; it
  is SILENCE and finalizes. A new wake event empties the speech buffer, and then the
  classification of the second chunk arrives, SILENCE as well: finalization runs with no
  buffered chunk, returns normally and hands over an empty audio buffer, which goes on to
  the transcription once the file is written.
\<close>

theorem C8_counterexample:
  "run 1 proc_always (init ())
     [Data [1, 2], Data [3, 4], Data [5, 6], VadResolved SILENCE, Data [7, 8],
      VadResolved SILENCE, SaveFinished] =
     Running \<lparr>isRecording = False, speechBuffer = [], audioBuffer = [], porcupine = (),
       trace = [PorcupineProcess [513], ConsoleLog ''Wake word detected!'',
         ConsoleLog ''Recording user speech...'', VadProcessAudio [3, 4],
         VadProcessAudio [5, 6], ConsoleLog ''User stopped speaking.'',
         ConsoleLog ''Stopping recording.'',
         SaveAudioToFile [3, 4, 5, 6] ''user_speech.wav'',
         PorcupineProcess [2055], ConsoleLog ''Wake word detected!'',
         ConsoleLog ''Recording user speech...'', ConsoleLog ''User stopped speaking.'',
         ConsoleLog ''Stopping recording.'', SaveAudioToFile [] ''user_speech.wav'',
         ConsoleLog ''Audio saved to user_speech.wav'',
         ProcessUserSpeech ''user_speech.wav'']\<rparr>"
  by code_simp

text \<open>
  C9 (trailing audio). The handler does append the arriving chunk to the speech buffer
  before it calls the classifier, and the classification is consulted later, in the
  callback. But the callback finalizes whatever the speech buffer holds when it runs. In
  this run two chunks are recorded before the first classification arrives; it is SILENCE
  and finalizes both. A new wake event empties the speech buffer and the chunk \<open>[9, 10]\<close> is
  recorded. Then the classification of the chunk \<open>[5, 6]\<close> arrives, SILENCE: the silence
  event it triggers finalizes \<open>[9, 10]\<close>, a segment that the chunk \<open>[5, 6]\<close> is not part of.
\<close>

theorem C9_stale_silence_finalizes_other_chunks:
  "run 1 proc_always (init ())
     [Data [1, 2], Data [3, 4], Data [5, 6], VadResolved SILENCE, Data [7, 8], Data [9, 10],
      VadResolved SILENCE] =
     Running \<lparr>isRecording = False, speechBuffer = [[9, 10]], audioBuffer = [], porcupine = (),
       trace = [PorcupineProcess [513], ConsoleLog ''Wake word detected!'',
         ConsoleLog ''Recording user speech...'', VadProcessAudio [3, 4],
         VadProcessAudio [5, 6], ConsoleLog ''User stopped speaking.'',
         ConsoleLog ''Stopping recording.'',
         SaveAudioToFile [3, 4, 5, 6] ''user_speech.wav'',
         PorcupineProcess [2055], ConsoleLog ''Wake word detected!'',
         ConsoleLog ''Recording user speech...'', VadProcessAudio [9, 10],
         ConsoleLog ''User stopped speaking.'', ConsoleLog ''Stopping recording.'',
         SaveAudioToFile [9, 10] ''user_speech.wav'']\<rparr>"
  by code_simp

text \<open>
  C10 (the residual buffer during a recording). Take any sequence of events such that the
  session is RECORDING before each of them; the last one may return it to LISTENING, or
  end the process. All handlers return, the residual buffer is afterwards what it was,
  and no frame has been given to the scorer. When a chunk then arrives in LISTENING and
  the handler returns (it does, for a positive frame length), the scorer has been given
  frames of \<open>fl\<close> samples whose bytes, followed by the new residual buffer, are the old
  residual buffer followed by the chunk; the scan went on until a wake event or until less
  than a frame was left; and if the old residual buffer held a whole frame, the first
  frame given to the scorer is its first \<open>fl * 2\<close> bytes: the stale bytes are scanned
  first.
\<close>

theorem C10_residual_buffer_kept:
  "(\<forall>k < length es. \<exists>wk. run fl proc w (take k es) = Running wk \<and> isRecording wk) \<longrightarrow>
   (\<exists>w1. last_world (run fl proc w es) = Some w1 \<and> audioBuffer w1 = audioBuffer w \<and>
      scanned (trace w1) = scanned (trace w) \<and>
      (\<forall>c w2. \<not> isRecording w1 \<and> on_data fl proc w1 c = Some w2 \<longrightarrow>
         (\<exists>frames. scanned (trace w2) = scanned (trace w1) @ frames \<and>
            (\<forall>f \<in> set frames. length f = fl) \<and>
            concat (map frame_bytes frames) @ audioBuffer w2 = audioBuffer w @ c \<and>
            (isRecording w2 \<or> length (audioBuffer w2) < fl * 2) \<and>
            (fl * 2 \<le> length (audioBuffer w) \<longrightarrow>
               frames \<noteq> [] \<and> frame_bytes (hd frames) = take (fl * 2) (audioBuffer w)))) \<and>
      (0 < fl \<longrightarrow> (\<forall>c. \<exists>w2. on_data fl proc w1 c = Some w2)))"
proof
  assume "\<forall>k < length es. \<exists>wk. run fl proc w (take k es) = Running wk \<and> isRecording wk"
  from run_recording [OF this] obtain w1 where
    w1: "last_world (run fl proc w es) = Some w1" "audioBuffer w1 = audioBuffer w"
        "scanned (trace w1) = scanned (trace w)"
    by blast
  have scan: "\<forall>c w2. \<not> isRecording w1 \<and> on_data fl proc w1 c = Some w2 \<longrightarrow>
         (\<exists>frames. scanned (trace w2) = scanned (trace w1) @ frames \<and>
            (\<forall>f \<in> set frames. length f = fl) \<and>
            concat (map frame_bytes frames) @ audioBuffer w2 = audioBuffer w @ c \<and>
            (isRecording w2 \<or> length (audioBuffer w2) < fl * 2) \<and>
            (fl * 2 \<le> length (audioBuffer w) \<longrightarrow>
               frames \<noteq> [] \<and> frame_bytes (hd frames) = take (fl * 2) (audioBuffer w)))"
  proof (intro allI impI)
    fix c w2 assume "\<not> isRecording w1 \<and> on_data fl proc w1 c = Some w2"
    then have "\<not> isRecording w1" "on_data fl proc w1 c = Some w2" by simp_all
    from on_data_listening_scan [OF this] show
      "\<exists>frames. scanned (trace w2) = scanned (trace w1) @ frames \<and>
            (\<forall>f \<in> set frames. length f = fl) \<and>
            concat (map frame_bytes frames) @ audioBuffer w2 = audioBuffer w @ c \<and>
            (isRecording w2 \<or> length (audioBuffer w2) < fl * 2) \<and>
            (fl * 2 \<le> length (audioBuffer w) \<longrightarrow>
               frames \<noteq> [] \<and> frame_bytes (hd frames) = take (fl * 2) (audioBuffer w))"
      by (simp only: w1(2))
  qed
  have total: "0 < fl \<longrightarrow> (\<forall>c. \<exists>w2. on_data fl proc w1 c = Some w2)"
    using on_data_total [of fl proc w1] by blast
  from w1 scan total show "\<exists>w1. last_world (run fl proc w es) = Some w1 \<and>
      audioBuffer w1 = audioBuffer w \<and> scanned (trace w1) = scanned (trace w) \<and>
      (\<forall>c w2. \<not> isRecording w1 \<and> on_data fl proc w1 c = Some w2 \<longrightarrow>
         (\<exists>frames. scanned (trace w2) = scanned (trace w1) @ frames \<and>
            (\<forall>f \<in> set frames. length f = fl) \<and>
            concat (map frame_bytes frames) @ audioBuffer w2 = audioBuffer w @ c \<and>
            (isRecording w2 \<or> length (audioBuffer w2) < fl * 2) \<and>
            (fl * 2 \<le> length (audioBuffer w) \<longrightarrow>
               frames \<noteq> [] \<and> frame_bytes (hd frames) = take (fl * 2) (audioBuffer w)))) \<and>
      (0 < fl \<longrightarrow> (\<forall>c. \<exists>w2. on_data fl proc w1 c = Some w2))"
    by blast
qed

theorem C10_residual_buffer_kept_witness:
  "\<exists>w2 frames.
     run 1 proc_never
       \<lparr>isRecording = True, speechBuffer = [], audioBuffer = [3, 4], porcupine = (), trace = []\<rparr>
       [Data [5, 6], VadResolved VOICE, Data [7, 8], VadResolved SILENCE] =
     Running \<lparr>isRecording = False, speechBuffer = [[5, 6], [7, 8]], audioBuffer = [3, 4],
       porcupine = (),
       trace = [VadProcessAudio [5, 6], VadProcessAudio [7, 8],
         ConsoleLog ''User stopped speaking.'', ConsoleLog ''Stopping recording.'',
         SaveAudioToFile [5, 6, 7, 8] ''user_speech.wav'']\<rparr> \<and>
     on_data 1 proc_never
       \<lparr>isRecording = False, speechBuffer = [[5, 6], [7, 8]], audioBuffer = [3, 4],
         porcupine = (),
         trace = [VadProcessAudio [5, 6], VadProcessAudio [7, 8],
           ConsoleLog ''User stopped speaking.'', ConsoleLog ''Stopping recording.'',
           SaveAudioToFile [5, 6, 7, 8] ''user_speech.wav'']\<rparr> [9, 10, 11] = Some w2 \<and>
     scanned (trace w2) = frames \<and>
     (\<forall>f \<in> set frames. length f = 1) \<and>
     concat (map frame_bytes frames) @ audioBuffer w2 = [3, 4, 9, 10, 11] \<and>
     (isRecording w2 \<or> length (audioBuffer w2) < 2) \<and>
     frames \<noteq> [] \<and> frame_bytes (hd frames) = [3, 4]"
proof -
  let ?w = "\<lparr>isRecording = True, speechBuffer = [], audioBuffer = [3, 4], porcupine = (),
              trace = []\<rparr> :: unit world"
  let ?es = "[Data [5, 6], VadResolved VOICE, Data [7, 8], VadResolved SILENCE]"
  let ?w1 = "\<lparr>isRecording = False, speechBuffer = [[5, 6], [7, 8]], audioBuffer = [3, 4],
       porcupine = (),
       trace = [VadProcessAudio [5, 6], VadProcessAudio [7, 8],
         ConsoleLog ''User stopped speaking.'', ConsoleLog ''Stopping recording.'',
         SaveAudioToFile [5, 6, 7, 8] ''user_speech.wav'']\<rparr> :: unit world"
  note c = mp [OF C10_residual_buffer_kept [of ?es 1 proc_never ?w] rec_run_prefixes]
  from c obtain v where v: "last_world (run 1 proc_never ?w ?es) = Some v"
    "\<forall>c w2. \<not> isRecording v \<and> on_data 1 proc_never v c = Some w2 \<longrightarrow>
         (\<exists>frames. scanned (trace w2) = scanned (trace v) @ frames \<and>
            (\<forall>f \<in> set frames. length f = 1) \<and>
            concat (map frame_bytes frames) @ audioBuffer w2 = audioBuffer ?w @ c \<and>
            (isRecording w2 \<or> length (audioBuffer w2) < 1 * 2) \<and>
            (1 * 2 \<le> length (audioBuffer ?w) \<longrightarrow>
               frames \<noteq> [] \<and> frame_bytes (hd frames) = take (1 * 2) (audioBuffer ?w)))"
    "0 < (1::nat) \<longrightarrow> (\<forall>c. \<exists>w2. on_data 1 proc_never v c = Some w2)"
    by (elim exE conjE) (rule that, assumption+)
  from v(1) have v1: "v = ?w1" by (simp only: rec_run last_world.simps option.inject)
  from v(3) obtain w2 where w2: "on_data 1 proc_never ?w1 [9, 10, 11] = Some w2"
    unfolding v1 by auto
  from v(2) [unfolded v1] w2 obtain frames where
    "scanned (trace w2) = scanned (trace ?w1) @ frames"
    "\<forall>f \<in> set frames. length f = 1"
    "concat (map frame_bytes frames) @ audioBuffer w2 = audioBuffer ?w @ [9, 10, 11]"
    "isRecording w2 \<or> length (audioBuffer w2) < 1 * 2"
    "frames \<noteq> [] \<and> frame_bytes (hd frames) = take (1 * 2) (audioBuffer ?w)"
    by fastforce
  then have "scanned (trace w2) = frames \<and>
     (\<forall>f \<in> set frames. length f = 1) \<and>
     concat (map frame_bytes frames) @ audioBuffer w2 = [3, 4, 9, 10, 11] \<and>
     (isRecording w2 \<or> length (audioBuffer w2) < 2) \<and>
     frames \<noteq> [] \<and> frame_bytes (hd frames) = [3, 4]"
    by simp
  with rec_run w2 show ?thesis by blast
qed

end
